theory Spec2Isabelle
  imports Complex_Main
begin

section \<open>Users feature store\<close>

text \<open>
  \<^verbatim>\<open>features/users/store/state/users.state.ts\<close>: the interfaces \<^verbatim>\<open>User\<close> and
  \<^verbatim>\<open>UsersState\<close>. Field names carry a prefix, because several records of this
  development have a field called \<^verbatim>\<open>id\<close> or \<^verbatim>\<open>error\<close>. A field of type
  \<^verbatim>\<open>string | null\<close> is a \<open>string option\<close>.
\<close>

record User =
  user_id :: string
  user_name :: string
  user_email :: string

record UsersState =
  users :: "User list"
  selectedUserId :: "string option"
  isLoading :: bool
  error :: "string option"

definition initialUsersState :: UsersState where
  "initialUsersState =
     \<lparr>users = [], selectedUserId = None, isLoading = False, error = None\<rparr>"

text \<open>
  \<^verbatim>\<open>features/users/store/actions/users.actions.ts\<close>: the action group, one
  constructor per event, with the event's props as arguments.
\<close>

datatype UsersActions =
    loadUsers
  | loadUsersSuccess "User list"
  | loadUsersFailure string
  | selectUser string
  | clearSelection
  | addUser User
  | addUserSuccess User
  | addUserFailure string
  | updateUser User
  | updateUserSuccess User
  | updateUserFailure string
  | deleteUser string
  | deleteUserSuccess string
  | deleteUserFailure string

text \<open>
  \<^verbatim>\<open>features/users/store/reducers/users.reducer.ts\<close>: one equation per \<^verbatim>\<open>on(...)\<close>
  handler, in the order of the source. The object spread \<^verbatim>\<open>{...state, f: v}\<close> is a
  record update.
\<close>

fun usersReducer :: "UsersState \<Rightarrow> UsersActions \<Rightarrow> UsersState" where
  "usersReducer state loadUsers = state\<lparr>isLoading := True, error := None\<rparr>"
| "usersReducer state (loadUsersSuccess us) =
     state\<lparr>users := us, isLoading := False, error := None\<rparr>"
| "usersReducer state (loadUsersFailure e) = state\<lparr>isLoading := False, error := Some e\<rparr>"
| "usersReducer state (selectUser userId) = state\<lparr>selectedUserId := Some userId\<rparr>"
| "usersReducer state clearSelection = state\<lparr>selectedUserId := None\<rparr>"
| "usersReducer state (addUser u) = state\<lparr>isLoading := True, error := None\<rparr>"
| "usersReducer state (addUserSuccess u) =
     state\<lparr>users := users state @ [u], isLoading := False\<rparr>"
| "usersReducer state (addUserFailure e) = state\<lparr>isLoading := False, error := Some e\<rparr>"
| "usersReducer state (updateUser u) = state\<lparr>isLoading := True, error := None\<rparr>"
| "usersReducer state (updateUserSuccess u) =
     state\<lparr>users := map (\<lambda>v. if user_id v = user_id u then u else v) (users state),
           isLoading := False\<rparr>"
| "usersReducer state (updateUserFailure e) = state\<lparr>isLoading := False, error := Some e\<rparr>"
| "usersReducer state (deleteUser userId) = state\<lparr>isLoading := True, error := None\<rparr>"
| "usersReducer state (deleteUserSuccess userId) =
     state\<lparr>users := filter (\<lambda>u. user_id u \<noteq> userId) (users state),
           selectedUserId :=
             (if selectedUserId state = Some userId then None else selectedUserId state),
           isLoading := False\<rparr>"
| "usersReducer state (deleteUserFailure e) = state\<lparr>isLoading := False, error := Some e\<rparr>"

text \<open>
  \<^verbatim>\<open>UsersEffects.deleteUser$\<close>: the effect maps a \<^verbatim>\<open>deleteUser\<close> action to one
  outcome action. The source's call is the placeholder \<^verbatim>\<open>of(userId)\<close>; its outcome
  is a parameter here (\<open>None\<close> for success, \<open>Some msg\<close> for an error with that
  message), so that the \<^verbatim>\<open>catchError\<close> branch is a branch of the model. Other
  actions pass the \<^verbatim>\<open>ofType\<close> filter of no delete effect.
\<close>

fun deleteUser_effect :: "string option \<Rightarrow> UsersActions \<Rightarrow> UsersActions option" where
  "deleteUser_effect None (deleteUser userId) = Some (deleteUserSuccess userId)"
| "deleteUser_effect (Some msg) (deleteUser userId) = Some (deleteUserFailure msg)"
| "deleteUser_effect outcome a = None"

section \<open>HTTP wrapper\<close>

text \<open>
  \<^verbatim>\<open>String.prototype.startsWith\<close> at position 0, on strings as lists of characters.
\<close>

fun startsWith :: "string \<Rightarrow> string \<Rightarrow> bool" where
  "startsWith s [] = True"
| "startsWith [] (p # ps) = False"
| "startsWith (c # cs) (p # ps) = (c = p \<and> startsWith cs ps)"

text \<open>
  \<^verbatim>\<open>BaseApiService.buildUrl\<close> (\<^verbatim>\<open>core/api/api-endpoints.ts\<close>). The field
  \<^verbatim>\<open>baseUrl\<close> is read from the environment file and is the first argument.
\<close>

definition buildUrl :: "string \<Rightarrow> string \<Rightarrow> string" where
  "buildUrl baseUrl endpoint =
     (if startsWith endpoint ''http://'' \<or> startsWith endpoint ''https://'' then endpoint
      else let normalizedEndpoint =
                 (if startsWith endpoint ''/'' then endpoint else ''/'' @ endpoint)
           in baseUrl @ normalizedEndpoint)"

text \<open>The number of slashes a string begins with.\<close>

definition leadingSlashes :: "string \<Rightarrow> nat" where
  "leadingSlashes s = length (takeWhile (\<lambda>c. c = CHR ''/'') s)"

section \<open>Identity session manager\<close>

text \<open>
  A promise that has settled: fulfilled with a value or rejected with an error message.
  A method of the source that may throw before it returns has a result of type
  \<open>string + 'a\<close>, \<open>Inl\<close> carrying the message of the thrown \<^verbatim>\<open>Error\<close>.
\<close>

datatype 'a promise = Resolved 'a | Rejected string

text \<open>
  The part of \<^verbatim>\<open>KeycloakTokenParsed\<close> that the service reads: the optional
  \<^verbatim>\<open>realm_access\<close> object, whose only field is the role list.
\<close>

record KeycloakTokenParsed =
  realm_access :: "string list option"

text \<open>
  The fields of the provider's \<^verbatim>\<open>Keycloak\<close> object that the service reads
  (\<^verbatim>\<open>authenticated\<close>, \<^verbatim>\<open>token\<close>, \<^verbatim>\<open>refreshToken\<close>, \<^verbatim>\<open>tokenParsed\<close>), each optional.
\<close>

record Keycloak =
  authenticated :: "bool option"
  token :: "string option"
  refreshToken :: "string option"
  tokenParsed :: "KeycloakTokenParsed option"

text \<open>
  Modelled from the spec: \<^verbatim>\<open>hasRealmRole\<close> is a method of the provider library
  (keycloak-js), which is not part of the repository. The spec describes the role
  checks as synchronous set-membership tests against the realm-role list embedded in
  the current parsed token claims; a token without claims or without a realm-role list
  has no roles.
\<close>

definition hasRealmRole :: "Keycloak \<Rightarrow> string \<Rightarrow> bool" where
  "hasRealmRole kc role =
     (case tokenParsed kc of
        None \<Rightarrow> False
      | Some t \<Rightarrow> (case realm_access t of None \<Rightarrow> False | Some rs \<Rightarrow> role \<in> set rs))"

text \<open>
  The profile the provider loads and the \<^verbatim>\<open>KeycloakUser\<close> built from it. The
  display name (a trimmed concatenation) and the resource roles are left out: no
  operation below reads them.
\<close>

record KeycloakProfile =
  profile_id :: "string option"
  profile_email :: "string option"
  profile_username :: "string option"

record KeycloakUser =
  sub :: string
  email :: "string option"
  preferred_username :: "string option"
  user_realm_access :: "string list option"

text \<open>
  The calls the service makes on the provider object, in the order they are made, are
  recorded in the service state, as are the values pushed into
  \<^verbatim>\<open>isAuthenticatedSubject\<close>; the current value of that subject is kept beside its
  history. \<^verbatim>\<open>refreshTimers\<close> counts the \<^verbatim>\<open>setInterval\<close> timers started by
  \<^verbatim>\<open>setupTokenRefresh\<close>.
\<close>

datatype provider_call =
    CallInit
  | CallLogin string
  | CallLogout string
  | CallUpdateToken int
  | CallLoadUserProfile

record KeycloakService =
  keycloakInstance :: "Keycloak option"
  isAuthenticatedSubject :: bool
  userSubject :: "KeycloakUser option"
  authEmissions :: "bool list"
  providerCalls :: "provider_call list"
  refreshTimers :: nat

definition newKeycloakService :: KeycloakService where
  "newKeycloakService =
     \<lparr>keycloakInstance = None, isAuthenticatedSubject = False, userSubject = None,
      authEmissions = [], providerCalls = [], refreshTimers = 0\<rparr>"

text \<open>\<^verbatim>\<open>this.isAuthenticatedSubject.next(b)\<close>.\<close>

definition nextAuthenticated :: "bool \<Rightarrow> KeycloakService \<Rightarrow> KeycloakService" where
  "nextAuthenticated b s =
     s\<lparr>isAuthenticatedSubject := b, authEmissions := authEmissions s @ [b]\<rparr>"

definition callProvider :: "provider_call \<Rightarrow> KeycloakService \<Rightarrow> KeycloakService" where
  "callProvider c s = s\<lparr>providerCalls := providerCalls s @ [c]\<rparr>"

text \<open>
  \<^verbatim>\<open>redirectUri || window.location.origin\<close>: an absent or empty argument gives the
  origin.
\<close>

definition redirectOr :: "string option \<Rightarrow> string \<Rightarrow> string" where
  "redirectOr redirectUri origin =
     (case redirectUri of None \<Rightarrow> origin | Some u \<Rightarrow> if u = [] then origin else u)"

text \<open>
  \<^verbatim>\<open>login\<close> and \<^verbatim>\<open>logout\<close>. Both throw when the provider object is absent and
  otherwise return the provider's promise as it is; how that promise settles is the
  last argument.
\<close>

definition login ::
  "KeycloakService \<Rightarrow> string \<Rightarrow> string option \<Rightarrow> unit promise
     \<Rightarrow> (string + unit promise) \<times> KeycloakService" where
  "login s origin redirectUri outcome =
     (case keycloakInstance s of
        None \<Rightarrow> (Inl ''Keycloak not initialized'', s)
      | Some kc \<Rightarrow> (Inr outcome, callProvider (CallLogin (redirectOr redirectUri origin)) s))"

definition logout ::
  "KeycloakService \<Rightarrow> string \<Rightarrow> string option \<Rightarrow> unit promise
     \<Rightarrow> (string + unit promise) \<times> KeycloakService" where
  "logout s origin redirectUri outcome =
     (case keycloakInstance s of
        None \<Rightarrow> (Inl ''Keycloak not initialized'', s)
      | Some kc \<Rightarrow>
          (Inr outcome,
           callProvider (CallLogout (redirectOr redirectUri origin))
             ((nextAuthenticated False s)\<lparr>userSubject := None\<rparr>)))"

definition isLoggedIn :: "KeycloakService \<Rightarrow> bool" where
  "isLoggedIn s =
     (case keycloakInstance s of
        None \<Rightarrow> False
      | Some kc \<Rightarrow> (case authenticated kc of None \<Rightarrow> False | Some b \<Rightarrow> b))"

definition getToken :: "KeycloakService \<Rightarrow> string option" where
  "getToken s = (case keycloakInstance s of None \<Rightarrow> None | Some kc \<Rightarrow> token kc)"

definition getTokenParsed :: "KeycloakService \<Rightarrow> KeycloakTokenParsed option" where
  "getTokenParsed s = (case keycloakInstance s of None \<Rightarrow> None | Some kc \<Rightarrow> tokenParsed kc)"

text \<open>
  \<^verbatim>\<open>updateToken(minValidity = 30)\<close>: an \<^verbatim>\<open>async\<close> method, so its result is a
  promise; an exception that leaves its body rejects that promise. The settlement of
  the provider's refresh promise and of the provider's logout promise (which the
  \<^verbatim>\<open>catch\<close> block does not await) are arguments.
\<close>

definition updateToken ::
  "KeycloakService \<Rightarrow> string \<Rightarrow> int option \<Rightarrow> bool promise \<Rightarrow> unit promise
     \<Rightarrow> bool promise \<times> KeycloakService" where
  "updateToken s origin minValidity refresh logoutOutcome =
     (case keycloakInstance s of
        None \<Rightarrow> (Resolved False, s)
      | Some kc \<Rightarrow>
          (let s1 = callProvider
                      (CallUpdateToken (case minValidity of None \<Rightarrow> 30 | Some v \<Rightarrow> v)) s
           in case refresh of
                Resolved refreshed \<Rightarrow> (Resolved True, s1)
              | Rejected e \<Rightarrow>
                  (case logout s1 origin None logoutOutcome of
                     (Inl thrown, s2) \<Rightarrow> (Rejected thrown, s2)
                   | (Inr p, s2) \<Rightarrow> (Resolved False, s2))))"

definition hasRole :: "KeycloakService \<Rightarrow> string \<Rightarrow> bool" where
  "hasRole s role =
     (case keycloakInstance s of None \<Rightarrow> False | Some kc \<Rightarrow> hasRealmRole kc role)"

definition hasAnyRole :: "KeycloakService \<Rightarrow> string list \<Rightarrow> bool" where
  "hasAnyRole s roles = list_ex (hasRole s) roles"

definition hasAllRoles :: "KeycloakService \<Rightarrow> string list \<Rightarrow> bool" where
  "hasAllRoles s roles = list_all (hasRole s) roles"

definition getUserRoles :: "KeycloakService \<Rightarrow> string list" where
  "getUserRoles s =
     (case keycloakInstance s of
        None \<Rightarrow> []
      | Some kc \<Rightarrow>
          (case tokenParsed kc of
             None \<Rightarrow> []
           | Some t \<Rightarrow> (case realm_access t of None \<Rightarrow> [] | Some rs \<Rightarrow> rs)))"

text \<open>
  \<^verbatim>\<open>loadUserProfile\<close>: the provider's promise settles with a profile or rejects; a
  rejection is logged and the user subject keeps its value.
\<close>

definition loadUserProfile :: "KeycloakService \<Rightarrow> KeycloakProfile promise \<Rightarrow> KeycloakService" where
  "loadUserProfile s outcome =
     (case keycloakInstance s of
        None \<Rightarrow> s
      | Some kc \<Rightarrow>
          (let s1 = callProvider CallLoadUserProfile s
           in case outcome of
                Rejected e \<Rightarrow> s1
              | Resolved profile \<Rightarrow>
                  s1\<lparr>userSubject :=
                       Some \<lparr>sub = (case profile_id profile of None \<Rightarrow> [] | Some i \<Rightarrow> i),
                             email = profile_email profile,
                             preferred_username = profile_username profile,
                             user_realm_access =
                               (case getTokenParsed s of
                                  None \<Rightarrow> None
                                | Some t \<Rightarrow> realm_access t)\<rparr>\<rparr>))"

definition setupTokenRefresh :: "KeycloakService \<Rightarrow> KeycloakService" where
  "setupTokenRefresh s =
     (case keycloakInstance s of
        None \<Rightarrow> s
      | Some kc \<Rightarrow> s\<lparr>refreshTimers := Suc (refreshTimers s)\<rparr>)"

text \<open>
  \<^verbatim>\<open>init\<close>: the constructor of the provider object may throw, and the handshake
  promise resolves to the authenticated flag or rejects; in the last two cases the
  provider object has been stored in the service. The profile is loaded without being
  awaited; its settlement is the last argument.
\<close>

datatype handshake =
    ConstructorThrows string
  | HandshakeRejects Keycloak string
  | HandshakeResolves Keycloak bool

definition init ::
  "KeycloakService \<Rightarrow> handshake \<Rightarrow> KeycloakProfile promise \<Rightarrow> bool promise \<times> KeycloakService" where
  "init s h profile =
     (case h of
        ConstructorThrows e \<Rightarrow> (Resolved False, s)
      | HandshakeRejects kc e \<Rightarrow>
          (Resolved False, callProvider CallInit (s\<lparr>keycloakInstance := Some kc\<rparr>))
      | HandshakeResolves kc auth \<Rightarrow>
          (let s1 = nextAuthenticated auth
                      (callProvider CallInit (s\<lparr>keycloakInstance := Some kc\<rparr>))
           in if auth then (Resolved auth, setupTokenRefresh (loadUserProfile s1 profile))
              else (Resolved auth, s1)))"

section \<open>Role guard\<close>

text \<open>
  The route metadata the guard reads: \<^verbatim>\<open>data['roles']\<close>, absent or a list, and
  \<^verbatim>\<open>data['requireAll']\<close>, absent or a boolean (the guard compares it with
  \<^verbatim>\<open>=== true\<close>).
\<close>

record route_data =
  roles :: "string list option"
  requireAll :: "bool option"

text \<open>
  \<^verbatim>\<open>roleGuard\<close> (\<^verbatim>\<open>core/auth/role.guard.ts\<close>). The result is the returned boolean,
  or the message of the error that \<^verbatim>\<open>login\<close> throws; with it come the service after
  the call and the routes passed to \<^verbatim>\<open>router.navigate\<close>. \<open>url\<close> is \<^verbatim>\<open>state.url\<close>.
\<close>

definition roleGuard ::
  "KeycloakService \<Rightarrow> string \<Rightarrow> string \<Rightarrow> route_data \<Rightarrow> unit promise
     \<Rightarrow> (string + bool) \<times> KeycloakService \<times> string list" where
  "roleGuard keycloakService origin url d loginOutcome =
     (if \<not> isLoggedIn keycloakService then
        (case login keycloakService origin (Some (origin @ url)) loginOutcome of
           (Inl thrown, s') \<Rightarrow> (Inl thrown, s', [])
         | (Inr p, s') \<Rightarrow> (Inr False, s', []))
      else
        (case roles d of
           None \<Rightarrow> (Inr True, keycloakService, [])
         | Some requiredRoles \<Rightarrow>
             if length requiredRoles = 0 then (Inr True, keycloakService, [])
             else
               (let hasAccess =
                      (if requireAll d = Some True
                       then hasAllRoles keycloakService requiredRoles
                       else hasAnyRole keycloakService requiredRoles)
                in if \<not> hasAccess then (Inr False, keycloakService, [''/unauthorized''])
                   else (Inr True, keycloakService, []))))"

section \<open>Notification (toast) service\<close>

text \<open>
  \<^verbatim>\<open>core/notifications/models/notification.model.ts\<close>. A JavaScript number that
  holds a duration is a rational (halving a finite double is exact apart from
  underflow; \<^verbatim>\<open>NaN\<close> and the infinities are not modelled), a capacity is an integer,
  and a \<^verbatim>\<open>Date\<close> is its millisecond count. Of a notification's action only the
  label is kept.
\<close>

datatype NotificationType = TypeSuccess | TypeError | TypeWarning | TypeInfo

datatype NotificationPosition =
  TopRight | TopLeft | TopCenter | BottomRight | BottomLeft | BottomCenter

record Notification =
  notif_id :: string
  notif_type :: NotificationType
  notif_title :: "string option"
  notif_message :: string
  duration :: rat
  dismissible :: bool
  timestamp :: int
  action :: "string option"

record NotificationOptions =
  opt_title :: "string option"
  opt_duration :: "rat option"
  opt_dismissible :: "bool option"
  opt_action :: "string option"

record ToastConfig =
  position :: NotificationPosition
  maxToasts :: int
  defaultDuration :: rat
  pauseOnHover :: bool

definition DEFAULT_TOAST_CONFIG :: ToastConfig where
  "DEFAULT_TOAST_CONFIG =
     \<lparr>position = TopRight, maxToasts = 5, defaultDuration = 5000, pauseOnHover = True\<rparr>"

text \<open>
  The service (\<^verbatim>\<open>core/notifications/services/toast.service.ts\<close>) with the part of
  the host it uses. \<^verbatim>\<open>timeoutMap\<close> is the service's \<^verbatim>\<open>Map\<close> from notification id
  to timer handle. The host's timers are \<^verbatim>\<open>pendingTimers\<close>: a handle that is pending
  maps to the id its callback will dismiss and to its delay. Handles are the positive
  integers, issued in increasing order (\<^verbatim>\<open>timerCounter\<close> is the last one issued), and
  \<^verbatim>\<open>clearedHandles\<close> lists the handles passed to the host's \<^verbatim>\<open>clearTimeout\<close>.
\<close>

record ToastService =
  notifications :: "Notification list"
  config :: ToastConfig
  timeoutMap :: "string \<rightharpoonup> nat"
  pendingTimers :: "nat \<rightharpoonup> string \<times> rat"
  timerCounter :: nat
  clearedHandles :: "nat list"

definition newToastService :: ToastService where
  "newToastService =
     \<lparr>notifications = [], config = DEFAULT_TOAST_CONFIG, timeoutMap = Map.empty,
      pendingTimers = Map.empty, timerCounter = 0, clearedHandles = []\<rparr>"

text \<open>The host's \<^verbatim>\<open>setTimeout(() => this.dismiss(id), delay)\<close> and \<^verbatim>\<open>clearTimeout\<close>.\<close>

definition hostSetTimeout :: "ToastService \<Rightarrow> string \<Rightarrow> rat \<Rightarrow> nat \<times> ToastService" where
  "hostSetTimeout s i delay =
     (let h = Suc (timerCounter s)
      in (h, s\<lparr>pendingTimers := (pendingTimers s)(h \<mapsto> (i, delay)), timerCounter := h\<rparr>))"

definition hostClearTimeout :: "ToastService \<Rightarrow> nat \<Rightarrow> ToastService" where
  "hostClearTimeout s h =
     s\<lparr>pendingTimers := (pendingTimers s)(h := None),
       clearedHandles := clearedHandles s @ [h]\<rparr>"

definition scheduleRemoval :: "ToastService \<Rightarrow> string \<Rightarrow> rat \<Rightarrow> ToastService" where
  "scheduleRemoval s i d =
     (case hostSetTimeout s i d of
        (timeout, s1) \<Rightarrow> s1\<lparr>timeoutMap := (timeoutMap s1)(i \<mapsto> timeout)\<rparr>)"

text \<open>
  \<^verbatim>\<open>clearTimeout\<close> of the service: \<^verbatim>\<open>if (timeout)\<close> holds for a handle that is
  present and not zero.
\<close>

definition clearTimeout :: "ToastService \<Rightarrow> string \<Rightarrow> ToastService" where
  "clearTimeout s i =
     (case timeoutMap s i of
        None \<Rightarrow> s
      | Some timeout \<Rightarrow>
          if timeout \<noteq> 0
          then (let s1 = hostClearTimeout s timeout
                in s1\<lparr>timeoutMap := (timeoutMap s1)(i := None)\<rparr>)
          else s)"

text \<open>
  \<^verbatim>\<open>show\<close>. The identifier that \<^verbatim>\<open>generateId\<close> draws from the clock and the random
  generator, and the time of \<^verbatim>\<open>new Date()\<close>, are arguments. The list \<^verbatim>\<open>updated\<close>
  holds the new record at least, so \<^verbatim>\<open>pop\<close> returns its last element. A field
  of the options that is \<open>None\<close> is absent or \<^verbatim>\<open>undefined\<close>; \<^verbatim>\<open>show\<close> treats
  the two alike.
\<close>

definition show_toast ::
  "ToastService \<Rightarrow> string \<Rightarrow> int \<Rightarrow> NotificationType \<Rightarrow> string
     \<Rightarrow> NotificationOptions option \<Rightarrow> string \<times> ToastService" where
  "show_toast s newId now ty msg options =
     (let cfg = config s;
          notification =
            \<lparr>notif_id = newId,
             notif_type = ty,
             notif_title = (case options of None \<Rightarrow> None | Some opt \<Rightarrow> opt_title opt),
             notif_message = msg,
             duration =
               (case options of
                  None \<Rightarrow> defaultDuration cfg
                | Some opt \<Rightarrow>
                    (case opt_duration opt of None \<Rightarrow> defaultDuration cfg | Some d \<Rightarrow> d)),
             dismissible =
               (case options of
                  None \<Rightarrow> True
                | Some opt \<Rightarrow> (case opt_dismissible opt of None \<Rightarrow> True | Some b \<Rightarrow> b)),
             timestamp = now,
             action = (case options of None \<Rightarrow> None | Some opt \<Rightarrow> opt_action opt)\<rparr>;
          updated = notification # notifications s;
          s1 = (if int (length updated) > maxToasts cfg
                then (clearTimeout s (notif_id (last updated)))
                       \<lparr>notifications := butlast updated\<rparr>
                else s\<lparr>notifications := updated\<rparr>);
          s2 = (if duration notification > 0
                then scheduleRemoval s1 newId (duration notification)
                else s1)
      in (newId, s2))"

definition dismiss :: "ToastService \<Rightarrow> string \<Rightarrow> ToastService" where
  "dismiss s i =
     (let s1 = clearTimeout s i
      in s1\<lparr>notifications := filter (\<lambda>n. notif_id n \<noteq> i) (notifications s1)\<rparr>)"

definition pause :: "ToastService \<Rightarrow> string \<Rightarrow> ToastService" where
  "pause s i = clearTimeout s i"

definition resume :: "ToastService \<Rightarrow> string \<Rightarrow> ToastService" where
  "resume s i =
     (case find (\<lambda>n. notif_id n = i) (notifications s) of
        None \<Rightarrow> s
      | Some notification \<Rightarrow>
          if duration notification > 0
          then scheduleRemoval s i (duration notification / 2)
          else s)"

text \<open>
  \<^verbatim>\<open>configure({maxToasts: n})\<close> for a number \<open>n\<close>, the one form of the call that
  this development uses: the spread \<^verbatim>\<open>{...current, ...config}\<close> replaces the
  capacity by \<open>n\<close> and keeps the other fields of the configuration.
\<close>

definition configure_maxToasts :: "ToastService \<Rightarrow> int \<Rightarrow> ToastService" where
  "configure_maxToasts s n = s\<lparr>config := (config s)\<lparr>maxToasts := n\<rparr>\<rparr>"

text \<open>
  The host runs the callback of a pending timer: the timer is spent, and the callback
  dismisses the notification it was scheduled for.
\<close>

definition fireTimer :: "ToastService \<Rightarrow> nat \<Rightarrow> ToastService" where
  "fireTimer s h =
     (case pendingTimers s h of
        None \<Rightarrow> s
      | Some (i, delay) \<Rightarrow> dismiss (s\<lparr>pendingTimers := (pendingTimers s)(h := None)\<rparr>) i)"

text \<open>
  A run of \<^verbatim>\<open>show\<close> calls, one after the other, each with its identifier, its time,
  its type, its message and its options.
\<close>

fun show_all ::
  "ToastService \<Rightarrow> (string \<times> int \<times> NotificationType \<times> string \<times> NotificationOptions option) list
     \<Rightarrow> ToastService" where
  "show_all s [] = s"
| "show_all s ((newId, now, ty, msg, options) # calls) =
     show_all (snd (show_toast s newId now ty msg options)) calls"

section \<open>Error logging service\<close>

text \<open>
  The error model (\<^verbatim>\<open>AppError\<close>, \<^verbatim>\<open>ErrorLogEntry\<close>): the context bag and the
  reference to the raw error are left out, and a metadata record is a list of
  key-value pairs. \<^verbatim>\<open>createLogEntry\<close> never sets the user and session fields.
\<close>

datatype ErrorCategory =
  Network | Authentication | Authorization | Validation | Server | Client | Unknown

datatype ErrorSeverity = SevInfo | SevWarning | SevError | SevCritical

record AppError =
  err_id :: string
  code :: string
  message :: string
  userMessage :: string
  category :: ErrorCategory
  severity :: ErrorSeverity
  err_timestamp :: int

record ErrorLogEntry =
  entry_error :: AppError
  userAgent :: "string option"
  metadata :: "(string \<times> string) list option"

text \<open>
  A logging hook: its name, its optional \<^verbatim>\<open>shouldLog\<close> predicate, and whether its
  \<^verbatim>\<open>log\<close> method throws on an entry. The predicate of a hook is taken to return;
  the service calls it outside the \<^verbatim>\<open>try\<close>, after the buffer has been updated.
\<close>

record ErrorLoggingHook =
  hook_name :: string
  shouldLog :: "(AppError \<Rightarrow> bool) option"
  logThrows :: "ErrorLogEntry \<Rightarrow> bool"

text \<open>
  The service: its hooks, its buffer, and what the hooks did (the entries handed to a
  hook that returned, and the names of the hooks whose failure was reported on the
  console).
\<close>

record ErrorLoggingService =
  hooks :: "ErrorLoggingHook list"
  errorBuffer :: "ErrorLogEntry list"
  delivered :: "(string \<times> ErrorLogEntry) list"
  hookWarnings :: "string list"

definition maxBufferSize :: nat where
  "maxBufferSize = 100"

definition newErrorLoggingService :: "ErrorLoggingHook list \<Rightarrow> ErrorLoggingService" where
  "newErrorLoggingService hs =
     \<lparr>hooks = hs, errorBuffer = [], delivered = [], hookWarnings = []\<rparr>"

definition createLogEntry ::
  "string option \<Rightarrow> AppError \<Rightarrow> (string \<times> string) list option \<Rightarrow> ErrorLogEntry" where
  "createLogEntry navigatorUserAgent err md =
     \<lparr>entry_error = err, userAgent = navigatorUserAgent, metadata = md\<rparr>"

text \<open>\<^verbatim>\<open>addToBuffer\<close>: \<^verbatim>\<open>push\<close>, then \<^verbatim>\<open>shift\<close> when the buffer is too long.\<close>

definition addToBuffer :: "ErrorLoggingService \<Rightarrow> ErrorLogEntry \<Rightarrow> ErrorLoggingService" where
  "addToBuffer s entry =
     (let pushed = errorBuffer s @ [entry]
      in if length pushed > maxBufferSize then s\<lparr>errorBuffer := tl pushed\<rparr>
         else s\<lparr>errorBuffer := pushed\<rparr>)"

definition shouldLogToHook :: "ErrorLoggingHook \<Rightarrow> AppError \<Rightarrow> bool" where
  "shouldLogToHook hook err = (case shouldLog hook of Some f \<Rightarrow> f err | None \<Rightarrow> True)"

text \<open>The loop over the hooks, each call of \<^verbatim>\<open>hook.log\<close> in its own \<^verbatim>\<open>try\<close>.\<close>

fun runHooks ::
  "ErrorLoggingHook list \<Rightarrow> AppError \<Rightarrow> ErrorLogEntry \<Rightarrow> ErrorLoggingService
     \<Rightarrow> ErrorLoggingService" where
  "runHooks [] err entry s = s"
| "runHooks (hook # rest) err entry s =
     runHooks rest err entry
       (if shouldLogToHook hook err
        then (if logThrows hook entry
              then s\<lparr>hookWarnings := hookWarnings s @ [hook_name hook]\<rparr>
              else s\<lparr>delivered := delivered s @ [(hook_name hook, entry)]\<rparr>)
        else s)"

text \<open>\<^verbatim>\<open>log\<close>; the user agent of the host's navigator is an argument.\<close>

definition log_error ::
  "ErrorLoggingService \<Rightarrow> string option \<Rightarrow> AppError \<Rightarrow> (string \<times> string) list option
     \<Rightarrow> ErrorLoggingService" where
  "log_error s navigatorUserAgent err md =
     (let entry = createLogEntry navigatorUserAgent err md
      in runHooks (hooks s) err entry (addToBuffer s entry))"

definition clearBuffer :: "ErrorLoggingService \<Rightarrow> ErrorLoggingService" where
  "clearBuffer s = s\<lparr>errorBuffer := []\<rparr>"

text \<open>A run of \<^verbatim>\<open>log\<close> calls, one after the other.\<close>

fun log_all ::
  "ErrorLoggingService \<Rightarrow> (string option \<times> AppError \<times> (string \<times> string) list option) list
     \<Rightarrow> ErrorLoggingService" where
  "log_all s [] = s"
| "log_all s ((ua, err, md) # calls) = log_all (log_error s ua err md) calls"

section \<open>Invariants of the notification service\<close>

text \<open>
  The timers are tracked when every handle in the timeout map is non-zero and belongs
  to a notification of the list, and every timer pending at the host is the one the
  timeout map records for its notification. The capacity invariant adds that the list
  holds the last \<open>N\<close> of the identifiers shown so far, newest first.
\<close>

definition timersTracked :: "ToastService \<Rightarrow> bool" where
  "timersTracked s \<longleftrightarrow>
     (\<forall>i h. timeoutMap s i = Some h \<longrightarrow> h \<noteq> 0 \<and> i \<in> notif_id ` set (notifications s))
     \<and> (\<forall>k i e. pendingTimers s k = Some (i, e) \<longrightarrow> timeoutMap s i = Some k)"

definition capacityInv :: "nat \<Rightarrow> string list \<Rightarrow> ToastService \<Rightarrow> bool" where
  "capacityInv N ids s \<longleftrightarrow>
     maxToasts (config s) = int N
     \<and> map notif_id (notifications s) = take N (rev ids)
     \<and> timersTracked s"

section \<open>Example states\<close>

text \<open>
  A session as \<^verbatim>\<open>init\<close> leaves it after a successful handshake for a user with the
  given realm roles, a toast service showing one notification with the default
  duration, and an error log whose buffer is full. The concrete instances of the theorems below are stated on them.
\<close>

definition sessionWithRoles :: "string list \<Rightarrow> KeycloakService" where
  "sessionWithRoles rs =
     snd (init newKeycloakService
            (HandshakeResolves
               \<lparr>authenticated = Some True, token = Some ''access-token'',
                refreshToken = Some ''refresh-token'',
                tokenParsed = Some \<lparr>realm_access = Some rs\<rparr>\<rparr>
               True)
            (Resolved \<lparr>profile_id = Some ''u-1'', profile_email = None,
                       profile_username = Some ''jdoe''\<rparr>))"

definition oneToast :: ToastService where
  "oneToast = snd (show_toast newToastService ''toast_1'' 0 TypeInfo ''saved'' None)"

text \<open>The service as \<^verbatim>\<open>configure({maxToasts: N})\<close> leaves a new one.\<close>

definition withCapacity :: "nat \<Rightarrow> ToastService" where
  "withCapacity N = configure_maxToasts newToastService (int N)"

definition sampleError :: "string \<Rightarrow> AppError" where
  "sampleError i =
     \<lparr>err_id = i, code = ''HTTP_500'', message = ''Internal Server Error'',
      userMessage = ''Something went wrong'', category = Server, severity = SevError,
      err_timestamp = 0\<rparr>"

definition fullBuffer :: ErrorLoggingService where
  "fullBuffer =
     (newErrorLoggingService [])
       \<lparr>errorBuffer := replicate 100 (createLogEntry None (sampleError ''old'') None)\<rparr>"

section \<open>Properties of the users store\<close>

text \<open>
  C1. The claim: dispatching \<^verbatim>\<open>deleteUser\<close> with userId "1" removes the user with id
  "1" from the list in the reducer's transition for that action, and a later
  \<^verbatim>\<open>deleteUserFailure\<close> re-inserts the record and sets the error. The reducer does
  neither: on the state holding the single user "1", the \<^verbatim>\<open>deleteUser\<close> transition
  leaves the user in the list (only the loading flag and the error change), and the
  \<^verbatim>\<open>deleteUserFailure\<close> transition after it leaves the list as it is, so there is
  nothing it re-inserts; the error is set to the given string.
\<close>

theorem deleteUser_not_optimistic:
  "users (usersReducer
            \<lparr>users = [\<lparr>user_id = ''1'', user_name = ''John Doe'',
                       user_email = ''john@example.com''\<rparr>],
             selectedUserId = None, isLoading = False, error = None\<rparr>
            (deleteUser ''1''))
     = [\<lparr>user_id = ''1'', user_name = ''John Doe'', user_email = ''john@example.com''\<rparr>]
   \<and> usersReducer
         (usersReducer
            \<lparr>users = [\<lparr>user_id = ''1'', user_name = ''John Doe'',
                       user_email = ''john@example.com''\<rparr>],
             selectedUserId = None, isLoading = False, error = None\<rparr>
            (deleteUser ''1''))
         (deleteUserFailure ''boom'')
     = \<lparr>users = [\<lparr>user_id = ''1'', user_name = ''John Doe'',
                     user_email = ''john@example.com''\<rparr>],
        selectedUserId = None, isLoading = False, error = Some ''boom''\<rparr>"
  by simp

section \<open>Properties of the HTTP wrapper\<close>

text \<open>
  C2, as stated: for a path without scheme prefix the endpoint part of the result
  begins with exactly one slash. It fails for a path that begins with two slashes,
  which is passed on as it is.
\<close>

theorem buildUrl_double_slash:
  "\<not> startsWith ''//users'' ''http://'' \<and> \<not> startsWith ''//users'' ''https://''
   \<and> buildUrl ''https://api.example.com/api'' ''//users''
       = ''https://api.example.com/api//users''
   \<and> leadingSlashes (drop (length ''https://api.example.com/api'')
        (buildUrl ''https://api.example.com/api'' ''//users'')) = 2"
  by (simp add: buildUrl_def leadingSlashes_def)

text \<open>
  C2, amended: for every path \<open>p\<close> without scheme prefix, \<^verbatim>\<open>buildUrl\<close> returns the
  base followed by \<open>p\<close> itself when \<open>p\<close> begins with a slash, and by a slash and
  \<open>p\<close> otherwise. The endpoint part therefore begins with a slash; it begins with as
  many slashes as \<open>p\<close> does, and with exactly one when \<open>p\<close> begins with none.
\<close>

theorem buildUrl_relative:
  assumes "\<not> startsWith p ''http://''" and "\<not> startsWith p ''https://''"
  shows "buildUrl base p = base @ (if startsWith p ''/'' then p else ''/'' @ p)
         \<and> startsWith (drop (length base) (buildUrl base p)) ''/''
         \<and> leadingSlashes (drop (length base) (buildUrl base p)) = max 1 (leadingSlashes p)"
  using assms by (cases p) (auto simp: buildUrl_def leadingSlashes_def Let_def)

theorem buildUrl_relative_witness:
  "\<not> startsWith ''users'' ''http://'' \<and> \<not> startsWith ''users'' ''https://''
   \<and> buildUrl ''http://localhost:3000/api'' ''users'' = ''http://localhost:3000/api/users''
   \<and> leadingSlashes (drop (length ''http://localhost:3000/api'')
         (buildUrl ''http://localhost:3000/api'' ''users'')) = 1"
  using buildUrl_relative [of "''users''" "''http://localhost:3000/api''"]
  by (simp add: leadingSlashes_def)

section \<open>Properties of the session manager and the role guard\<close>

lemma sessionWithRoles_eval:
  "sessionWithRoles rs =
     \<lparr>keycloakInstance =
        Some \<lparr>authenticated = Some True, token = Some ''access-token'',
              refreshToken = Some ''refresh-token'',
              tokenParsed = Some \<lparr>realm_access = Some rs\<rparr>\<rparr>,
      isAuthenticatedSubject = True,
      userSubject =
        Some \<lparr>sub = ''u-1'', email = None, preferred_username = Some ''jdoe'',
              user_realm_access = Some rs\<rparr>,
      authEmissions = [True],
      providerCalls = [CallInit, CallLoadUserProfile],
      refreshTimers = 1\<rparr>"
  by (simp add: sessionWithRoles_def init_def newKeycloakService_def nextAuthenticated_def
      callProvider_def loadUserProfile_def setupTokenRefresh_def getTokenParsed_def Let_def)

lemma isLoggedIn_sessionWithRoles: "isLoggedIn (sessionWithRoles rs)"
  by (simp add: sessionWithRoles_eval isLoggedIn_def)

lemma getUserRoles_sessionWithRoles: "getUserRoles (sessionWithRoles rs) = rs"
  by (simp add: sessionWithRoles_eval getUserRoles_def)

lemma hasRole_getUserRoles: "hasRole s = (\<lambda>r. r \<in> set (getUserRoles s))"
  by (rule ext) (simp add: hasRole_def hasRealmRole_def getUserRoles_def split: option.splits)

text \<open>
  C3. For an authenticated user and a route with a non-empty list of required roles,
  the role guard returns (it does not throw), and it grants access exactly when, with
  \<^verbatim>\<open>requireAll\<close> true, every required role is among the user's realm roles, and, with
  \<^verbatim>\<open>requireAll\<close> false or absent, at least one required role is.
\<close>

theorem roleGuard_role_semantics:
  assumes "isLoggedIn s" and "roles d = Some rs" and "rs \<noteq> []"
  shows "fst (roleGuard s origin url d loginOutcome) =
           Inr (if requireAll d = Some True
                then set rs \<subseteq> set (getUserRoles s)
                else set rs \<inter> set (getUserRoles s) \<noteq> {})"
  using assms
  by (auto simp: roleGuard_def hasAllRoles_def hasAnyRole_def hasRole_getUserRoles Let_def
      list_all_iff list_ex_iff)

theorem roleGuard_role_semantics_witness:
  "fst (roleGuard (sessionWithRoles [''B'']) ''http://localhost:4200'' ''/admin''
          \<lparr>roles = Some [''A'', ''B''], requireAll = None\<rparr> (Resolved ())) = Inr True
   \<and> fst (roleGuard (sessionWithRoles []) ''http://localhost:4200'' ''/admin''
          \<lparr>roles = Some [''A'', ''B''], requireAll = Some False\<rparr> (Resolved ())) = Inr False
   \<and> fst (roleGuard (sessionWithRoles [''A'']) ''http://localhost:4200'' ''/admin''
          \<lparr>roles = Some [''A'', ''B''], requireAll = Some True\<rparr> (Resolved ())) = Inr False
   \<and> fst (roleGuard (sessionWithRoles [''C'', ''B'', ''A'']) ''http://localhost:4200'' ''/admin''
          \<lparr>roles = Some [''A'', ''B''], requireAll = Some True\<rparr> (Resolved ())) = Inr True"
  using roleGuard_role_semantics [of "sessionWithRoles [''B'']"
          "\<lparr>roles = Some [''A'', ''B''], requireAll = None\<rparr>" "[''A'', ''B'']"
          "''http://localhost:4200''" "''/admin''" "Resolved ()"]
        roleGuard_role_semantics [of "sessionWithRoles []"
          "\<lparr>roles = Some [''A'', ''B''], requireAll = Some False\<rparr>" "[''A'', ''B'']"
          "''http://localhost:4200''" "''/admin''" "Resolved ()"]
        roleGuard_role_semantics [of "sessionWithRoles [''A'']"
          "\<lparr>roles = Some [''A'', ''B''], requireAll = Some True\<rparr>" "[''A'', ''B'']"
          "''http://localhost:4200''" "''/admin''" "Resolved ()"]
        roleGuard_role_semantics [of "sessionWithRoles [''C'', ''B'', ''A'']"
          "\<lparr>roles = Some [''A'', ''B''], requireAll = Some True\<rparr>" "[''A'', ''B'']"
          "''http://localhost:4200''" "''/admin''" "Resolved ()"]
  by (simp add: isLoggedIn_sessionWithRoles getUserRoles_sessionWithRoles)

text \<open>
  C10. For an authenticated user, when the route metadata has no \<^verbatim>\<open>roles\<close> entry or
  an empty list, the role guard returns true, whatever the user's roles are; it leaves
  the service as it is and navigates nowhere.
\<close>

theorem roleGuard_no_roles:
  assumes "isLoggedIn s" and "roles d = None \<or> roles d = Some []"
  shows "roleGuard s origin url d loginOutcome = (Inr True, s, [])"
  using assms by (auto simp: roleGuard_def)

theorem roleGuard_no_roles_witness:
  "isLoggedIn (sessionWithRoles [])
   \<and> roleGuard (sessionWithRoles []) ''http://localhost:4200'' ''/users''
       \<lparr>roles = None, requireAll = None\<rparr> (Resolved ())
     = (Inr True, sessionWithRoles [], [])
   \<and> roleGuard (sessionWithRoles [''admin'']) ''http://localhost:4200'' ''/users''
       \<lparr>roles = Some [], requireAll = Some True\<rparr> (Resolved ())
     = (Inr True, sessionWithRoles [''admin''], [])"
  using roleGuard_no_roles [of "sessionWithRoles []" "\<lparr>roles = None, requireAll = None\<rparr>"
          "''http://localhost:4200''" "''/users''" "Resolved ()"]
        roleGuard_no_roles [of "sessionWithRoles [''admin'']"
          "\<lparr>roles = Some [], requireAll = Some True\<rparr>"
          "''http://localhost:4200''" "''/users''" "Resolved ()"]
  by (simp add: isLoggedIn_sessionWithRoles)

text \<open>
  C4. When the provider's refresh call rejects, \<^verbatim>\<open>updateToken\<close> resolves to false;
  it has called the provider's refresh once and the provider's logout once, in that
  order, and nothing else; it has pushed false into the authenticated subject once and
  cleared the user, so the session state that the service owns is unauthenticated. The
  fields of the provider object are the provider's to change and stay as they are in
  the model.
\<close>

theorem updateToken_fail_closed:
  assumes "keycloakInstance s = Some kc"
  shows "updateToken s origin minValidity (Rejected e) logoutOutcome =
           (Resolved False,
            s\<lparr>isAuthenticatedSubject := False, userSubject := None,
              authEmissions := authEmissions s @ [False],
              providerCalls := providerCalls s @
                 [CallUpdateToken (case minValidity of None \<Rightarrow> 30 | Some v \<Rightarrow> v),
                  CallLogout origin]\<rparr>)"
  using assms
  by (simp add: updateToken_def logout_def callProvider_def nextAuthenticated_def
      redirectOr_def Let_def)

theorem updateToken_fail_closed_witness:
  "isAuthenticatedSubject (sessionWithRoles [''user''])
   \<and> fst (updateToken (sessionWithRoles [''user'']) ''http://localhost:4200'' (Some 70)
            (Rejected ''refresh failed'') (Resolved ())) = Resolved False
   \<and> \<not> isAuthenticatedSubject
         (snd (updateToken (sessionWithRoles [''user'']) ''http://localhost:4200'' (Some 70)
                 (Rejected ''refresh failed'') (Resolved ())))
   \<and> providerCalls
         (snd (updateToken (sessionWithRoles [''user'']) ''http://localhost:4200'' (Some 70)
                 (Rejected ''refresh failed'') (Resolved ())))
       = [CallInit, CallLoadUserProfile, CallUpdateToken 70,
          CallLogout ''http://localhost:4200'']"
  using updateToken_fail_closed [of "sessionWithRoles [''user'']"
          "\<lparr>authenticated = Some True, token = Some ''access-token'',
            refreshToken = Some ''refresh-token'',
            tokenParsed = Some \<lparr>realm_access = Some [''user'']\<rparr>\<rparr>"
          "''http://localhost:4200''" "Some 70" "''refresh failed''" "Resolved ()"]
  by (simp add: sessionWithRoles_eval)

text \<open>
  C7, as stated: no failure of a provider call escapes a method of the service. It
  fails for \<^verbatim>\<open>login\<close>: the promise it returns is the provider's, so a rejection
  reaches the caller as it is; and on a service that was never initialised
  \<^verbatim>\<open>login\<close> and \<^verbatim>\<open>logout\<close> throw.
\<close>

theorem login_failure_propagates:
  "fst (login (sessionWithRoles []) ''http://localhost:4200'' None (Rejected ''network down''))
     = Inr (Rejected ''network down'')
   \<and> fst (login newKeycloakService ''http://localhost:4200'' None (Resolved ()))
     = Inl ''Keycloak not initialized''
   \<and> fst (logout newKeycloakService ''http://localhost:4200'' None (Resolved ()))
     = Inl ''Keycloak not initialized''"
  by (simp add: login_def logout_def sessionWithRoles_eval newKeycloakService_def)

text \<open>
  C7, amended: a failure of the provider's constructor or handshake in \<^verbatim>\<open>init\<close> and
  of the provider's refresh in \<^verbatim>\<open>updateToken\<close> is caught and the method resolves to
  false; a failed profile load leaves the user as it was; on a service without
  provider object the role checks return false (for \<^verbatim>\<open>hasAllRoles\<close>, on a
  non-empty list) and \<^verbatim>\<open>getUserRoles\<close> returns the empty list. \<^verbatim>\<open>login\<close> and
  \<^verbatim>\<open>logout\<close> are not guarded: without provider object they throw "Keycloak not
  initialized", and with one they return the provider's promise, rejected when the
  provider rejects.
\<close>

theorem keycloak_failure_handling:
  "fst (init s (ConstructorThrows e) profile) = Resolved False
   \<and> fst (init s (HandshakeRejects kc e) profile) = Resolved False
   \<and> fst (updateToken s origin mv (Rejected e) lo) = Resolved False
   \<and> userSubject (loadUserProfile s (Rejected e)) = userSubject s
   \<and> (keycloakInstance s = None \<longrightarrow>
        \<not> hasRole s r \<and> \<not> hasAnyRole s rs \<and> (rs \<noteq> [] \<longrightarrow> \<not> hasAllRoles s rs)
        \<and> getUserRoles s = []
        \<and> fst (login s origin uri p) = Inl ''Keycloak not initialized''
        \<and> fst (logout s origin uri p) = Inl ''Keycloak not initialized'')
   \<and> (keycloakInstance s \<noteq> None \<longrightarrow>
        fst (login s origin uri (Rejected e)) = Inr (Rejected e)
        \<and> fst (logout s origin uri (Rejected e)) = Inr (Rejected e))"
  by (cases rs)
     (auto simp: init_def updateToken_def logout_def login_def loadUserProfile_def
      callProvider_def hasRole_def hasAnyRole_def hasAllRoles_def getUserRoles_def
      list_ex_iff Let_def split: option.splits)

theorem keycloak_failure_handling_witness:
  "keycloakInstance newKeycloakService = None
   \<and> fst (login newKeycloakService ''o'' None (Resolved ())) = Inl ''Keycloak not initialized''
   \<and> \<not> hasRole newKeycloakService ''admin''
   \<and> \<not> hasAllRoles newKeycloakService [''admin'']
   \<and> keycloakInstance (sessionWithRoles []) \<noteq> None
   \<and> fst (logout (sessionWithRoles []) ''o'' None (Rejected ''x'')) = Inr (Rejected ''x'')
   \<and> fst (updateToken (sessionWithRoles []) ''o'' None (Rejected ''x'') (Resolved ()))
       = Resolved False"
  using keycloak_failure_handling [where s = newKeycloakService and e = "''x''"
           and origin = "''o''" and mv = None and lo = "Resolved ()" and r = "''admin''"
           and rs = "[''admin'']" and uri = None and p = "Resolved ()"]
        keycloak_failure_handling [where s = "sessionWithRoles []" and e = "''x''"
           and origin = "''o''" and mv = None and lo = "Resolved ()" and r = "''admin''"
           and rs = "[''admin'']" and uri = None and p = "Resolved ()"]
  by (simp add: newKeycloakService_def sessionWithRoles_eval)

section \<open>Properties of the notification service\<close>

lemma oneToast_eval:
  "notifications oneToast =
     [\<lparr>notif_id = ''toast_1'', notif_type = TypeInfo, notif_title = None,
       notif_message = ''saved'', duration = 5000, dismissible = True, timestamp = 0,
       action = None\<rparr>]"
  "timeoutMap oneToast = [''toast_1'' \<mapsto> 1]"
  "pendingTimers oneToast = [1 \<mapsto> (''toast_1'', 5000)]"
  "timerCounter oneToast = 1"
  by (simp_all add: oneToast_def show_toast_def newToastService_def DEFAULT_TOAST_CONFIG_def
      scheduleRemoval_def hostSetTimeout_def Let_def)

text \<open>
  C5. The claim: after N+1 calls of \<^verbatim>\<open>show\<close> with capacity N, N records remain and
  no timer of the evicted record is left in the timeout map. With capacity 0 and the
  default duration, one call of \<^verbatim>\<open>show\<close> leaves no record, as the claim says, but
  the record it evicts is the one it has just built, and the removal timer of that
  record is scheduled after the eviction: the timeout map holds a timer for the
  evicted record and the host has it pending.
\<close>

theorem show_toast_zero_capacity_leaks_timer:
  "maxToasts (config (withCapacity 0)) = 0
   \<and> notifications (snd (show_toast (withCapacity 0) ''toast_1'' 0 TypeInfo ''saved'' None)) = []
   \<and> timeoutMap (snd (show_toast (withCapacity 0) ''toast_1'' 0 TypeInfo ''saved'' None))
        ''toast_1'' = Some 1
   \<and> pendingTimers (snd (show_toast (withCapacity 0) ''toast_1'' 0 TypeInfo ''saved'' None)) 1
        = Some (''toast_1'', 5000)"
  by (simp add: show_toast_def withCapacity_def configure_maxToasts_def newToastService_def
      DEFAULT_TOAST_CONFIG_def scheduleRemoval_def hostSetTimeout_def clearTimeout_def Let_def)

text \<open>
  For a capacity of at least 1 the eviction does what it is written for. From a new
  service of capacity \<open>N \<ge> 1\<close>, after \<open>N + 1\<close> calls of \<^verbatim>\<open>show\<close> with distinct
  identifiers and no timer firing in between, the list holds the \<open>N\<close> newest records,
  newest first; the first record shown is gone, the timeout map has no timer for it
  and the host has none pending.
\<close>

lemma clearTimeout_fields [simp]:
  "notifications (clearTimeout s r) = notifications s"
  "config (clearTimeout s r) = config s"
  by (simp_all add: clearTimeout_def hostClearTimeout_def Let_def split: option.splits)

lemma clearTimeout_tracked:
  assumes "\<forall>i h. timeoutMap s i = Some h \<longrightarrow> h \<noteq> 0"
    and "\<forall>k i e. pendingTimers s k = Some (i, e) \<longrightarrow> timeoutMap s i = Some k"
  shows "timeoutMap (clearTimeout s r) = (timeoutMap s)(r := None)"
    and "\<forall>k i e. pendingTimers (clearTimeout s r) k = Some (i, e)
           \<longrightarrow> timeoutMap (clearTimeout s r) i = Some k"
proof -
  show m: "timeoutMap (clearTimeout s r) = (timeoutMap s)(r := None)"
    using assms(1)
    by (auto simp: clearTimeout_def hostClearTimeout_def Let_def split: option.splits)
  show "\<forall>k i e. pendingTimers (clearTimeout s r) k = Some (i, e)
           \<longrightarrow> timeoutMap (clearTimeout s r) i = Some k"
    unfolding m using assms
    by (auto simp: clearTimeout_def hostClearTimeout_def Let_def split: option.splits if_splits)
       (metis option.distinct(1) option.inject)+
qed

lemma scheduleRemoval_tracked:
  assumes "timersTracked s" and "i \<in> notif_id ` set (notifications s)"
    and "timeoutMap s i = None"
  shows "timersTracked (scheduleRemoval s i d)"
  using assms unfolding timersTracked_def
  by (auto simp: scheduleRemoval_def hostSetTimeout_def Let_def split: if_splits)
     (metis option.distinct(1))+

lemma scheduleRemoval_fields [simp]:
  "notifications (scheduleRemoval s i d) = notifications s"
  "config (scheduleRemoval s i d) = config s"
  by (simp_all add: scheduleRemoval_def hostSetTimeout_def Let_def)

lemma show_toast_shape:
  "\<exists>n. notif_id n = i
     \<and> snd (show_toast s i now ty msg opts) =
         (let s1 = (if int (length (n # notifications s)) > maxToasts (config s)
                    then (clearTimeout s (notif_id (last (n # notifications s))))
                           \<lparr>notifications := butlast (n # notifications s)\<rparr>
                    else s\<lparr>notifications := n # notifications s\<rparr>)
          in if duration n > 0 then scheduleRemoval s1 i (duration n) else s1)"
  unfolding show_toast_def Let_def snd_conv
  by (rule exI [of _ "\<lparr>notif_id = i, notif_type = ty,
         notif_title = (case opts of None \<Rightarrow> None | Some opt \<Rightarrow> opt_title opt),
         notif_message = msg,
         duration =
           (case opts of
              None \<Rightarrow> defaultDuration (config s)
            | Some opt \<Rightarrow>
                (case opt_duration opt of None \<Rightarrow> defaultDuration (config s) | Some d \<Rightarrow> d)),
         dismissible =
           (case opts of
              None \<Rightarrow> True
            | Some opt \<Rightarrow> (case opt_dismissible opt of None \<Rightarrow> True | Some b \<Rightarrow> b)),
         timestamp = now,
         action = (case opts of None \<Rightarrow> None | Some opt \<Rightarrow> opt_action opt)\<rparr>"]) simp

lemma butlast_take_rev:
  "1 \<le> N \<Longrightarrow> N \<le> length xs \<Longrightarrow> i # butlast (take N xs) = take N (i # xs)"
  by (cases N) (simp_all add: butlast_take)

lemma capacityInv_show_toast:
  assumes inv: "capacityInv N ids s" and N: "1 \<le> N"
    and fresh: "i \<notin> set ids" and dist: "distinct ids"
  shows "capacityInv N (ids @ [i]) (snd (show_toast s i now ty msg opts))"
proof -
  obtain n where n: "notif_id n = i"
    and shape: "snd (show_toast s i now ty msg opts) =
         (let s1 = (if int (length (n # notifications s)) > maxToasts (config s)
                    then (clearTimeout s (notif_id (last (n # notifications s))))
                           \<lparr>notifications := butlast (n # notifications s)\<rparr>
                    else s\<lparr>notifications := n # notifications s\<rparr>)
          in if duration n > 0 then scheduleRemoval s1 i (duration n) else s1)"
    using show_toast_shape by blast
  let ?L = "notifications s"
  define s1 where "s1 = (if int (length (n # ?L)) > maxToasts (config s)
                    then (clearTimeout s (notif_id (last (n # ?L))))
                           \<lparr>notifications := butlast (n # ?L)\<rparr>
                    else s\<lparr>notifications := n # ?L\<rparr>)"
  from inv have cap: "maxToasts (config s) = int N"
    and ids: "map notif_id ?L = take N (rev ids)"
    and tr: "timersTracked s"
    by (simp_all add: capacityInv_def)
  have lenL: "length ?L = min N (length ids)"
    using arg_cong [OF ids, of length] by simp
  have distL: "distinct (map notif_id ?L)"
    unfolding ids using dist by (simp add: distinct_take)
  have nz: "\<forall>j h. timeoutMap s j = Some h \<longrightarrow> h \<noteq> 0"
    and dom: "\<forall>j h. timeoutMap s j = Some h \<longrightarrow> j \<in> notif_id ` set ?L"
    and pend: "\<forall>k j e. pendingTimers s k = Some (j, e) \<longrightarrow> timeoutMap s j = Some k"
    using tr by (auto simp: timersTracked_def)
  have i_notin: "i \<notin> notif_id ` set ?L"
  proof -
    have "notif_id ` set ?L = set (take N (rev ids))"
      using arg_cong [OF ids, of set] by simp
    then show ?thesis using fresh by (auto dest: in_set_takeD)
  qed
  have i_free: "timeoutMap s i = None"
    using dom i_notin by (cases "timeoutMap s i") auto
  have s1_props: "config s1 = config s
      \<and> map notif_id (notifications s1) = take N (rev (ids @ [i]))
      \<and> timersTracked s1 \<and> timeoutMap s1 i = None"
  proof (cases "int (length (n # ?L)) > maxToasts (config s)")
    case True
    then have full: "N \<le> length ids" and lenN: "length ?L = N"
      using cap lenL by auto
    then have ne: "?L \<noteq> []" using N by auto
    let ?r = "notif_id (last ?L)"
    have s1: "s1 = (clearTimeout s ?r)\<lparr>notifications := n # butlast ?L\<rparr>"
      using True ne by (simp add: s1_def)
    have m: "timeoutMap (clearTimeout s ?r) = (timeoutMap s)(?r := None)"
      and p: "\<forall>k j e. pendingTimers (clearTimeout s ?r) k = Some (j, e)
                \<longrightarrow> timeoutMap (clearTimeout s ?r) j = Some k"
      using clearTimeout_tracked [OF nz pend] by blast+
    have list: "map notif_id (notifications s1) = take N (rev (ids @ [i]))"
      using butlast_take_rev [OF N, of "rev ids" i] full
      by (simp add: s1 n map_butlast ids)
    have in_butlast: "j \<in> notif_id ` set (butlast ?L)"
      if "j \<in> notif_id ` set ?L" and "j \<noteq> ?r" for j
    proof -
      have "map notif_id ?L = map notif_id (butlast ?L) @ [?r]"
        using ne by (metis append_butlast_last_id map_append list.simps(8,9))
      with that show ?thesis
        by (metis (no_types, lifting) Un_iff empty_iff insert_iff list.set(1,2) list.set_map
            set_append)
    qed
    have "timersTracked s1"
      unfolding timersTracked_def
    proof (intro conjI allI impI)
      fix j h assume a: "timeoutMap s1 j = Some h"
      then have j: "j \<noteq> ?r" and old: "timeoutMap s j = Some h"
        by (auto simp: s1 m split: if_splits)
      show "h \<noteq> 0" using nz old by blast
      show "j \<in> notif_id ` set (notifications s1)"
        using in_butlast [OF _ j] dom old by (simp add: s1)
    next
      fix k j e assume "pendingTimers s1 k = Some (j, e)"
      then show "timeoutMap s1 j = Some k" using p by (simp add: s1)
    qed
    moreover have "timeoutMap s1 i = None" using i_free by (simp add: s1 m)
    moreover have "config s1 = config s" by (simp add: s1)
    ultimately show ?thesis using list by blast
  next
    case False
    then have short: "length ids < N" using cap lenL by auto
    have s1: "s1 = s\<lparr>notifications := n # ?L\<rparr>"
      using False by (simp add: s1_def)
    have list: "map notif_id (notifications s1) = take N (rev (ids @ [i]))"
      using short N by (cases N) (simp_all add: s1 n ids)
    have "timersTracked s1"
      using tr by (auto simp: timersTracked_def s1)
    then show ?thesis using list i_free by (simp add: s1)
  qed
  have final: "snd (show_toast s i now ty msg opts) =
                 (if duration n > 0 then scheduleRemoval s1 i (duration n) else s1)"
    unfolding shape s1_def Let_def ..
  have i_in: "i \<in> notif_id ` set (notifications s1)"
  proof -
    have "set (map notif_id (notifications s1)) = set (take N (i # rev ids))"
      using s1_props by simp
    moreover have "i \<in> set (take N (i # rev ids))" using N by (cases N) auto
    ultimately show ?thesis by auto
  qed
  show ?thesis
    unfolding final capacityInv_def
    using s1_props cap scheduleRemoval_tracked [OF _ i_in, of "duration n"]
    by auto
qed

lemma capacityInv_show_all:
  assumes "capacityInv N ids s" and "1 \<le> N" and "distinct (ids @ map fst calls)"
  shows "capacityInv N (ids @ map fst calls) (show_all s calls)"
  using assms
proof (induction s calls arbitrary: ids rule: show_all.induct)
  case (1 s)
  then show ?case by simp
next
  case (2 s newId now ty msg options calls)
  have step: "capacityInv N (ids @ [newId]) (snd (show_toast s newId now ty msg options))"
    using "2.prems" by (intro capacityInv_show_toast) auto
  have "capacityInv N ((ids @ [newId]) @ map fst calls)
          (show_all (snd (show_toast s newId now ty msg options)) calls)"
    using "2.prems" by (intro "2.IH" step) auto
  then show ?case by simp
qed

lemma capacityInv_withCapacity: "capacityInv N [] (withCapacity N)"
  by (simp add: capacityInv_def timersTracked_def withCapacity_def configure_maxToasts_def
      newToastService_def)

lemma show_all_capacity:
  assumes "1 \<le> N" and "distinct (map fst calls)" and "length calls = N + 1"
  shows "length (notifications (show_all (withCapacity N) calls)) = N
         \<and> map notif_id (notifications (show_all (withCapacity N) calls))
             = rev (tl (map fst calls))
         \<and> timeoutMap (show_all (withCapacity N) calls) (fst (hd calls)) = None
         \<and> (\<forall>k e. pendingTimers (show_all (withCapacity N) calls) k
                     \<noteq> Some (fst (hd calls), e))"
proof -
  let ?s = "show_all (withCapacity N) calls"
  obtain c rest where calls: "calls = c # rest" and rest: "length rest = N"
    using assms(3) by (cases calls) auto
  have inv: "capacityInv N (map fst calls) ?s"
    using capacityInv_show_all [OF capacityInv_withCapacity assms(1), of calls] assms(2)
    by simp
  then have ids: "map notif_id (notifications ?s) = rev (map fst rest)"
    using rest by (simp add: capacityInv_def calls)
  have len: "length (notifications ?s) = N"
    using arg_cong [OF ids, of length] rest by simp
  have notin: "fst c \<notin> notif_id ` set (notifications ?s)"
  proof -
    have "notif_id ` set (notifications ?s) = set (map fst rest)"
      using arg_cong [OF ids, of set] by simp
    then show ?thesis using assms(2) by (simp add: calls)
  qed
  from inv have tr: "timersTracked ?s" by (simp add: capacityInv_def)
  have none: "timeoutMap ?s (fst c) = None"
    using tr notin by (cases "timeoutMap ?s (fst c)") (auto simp: timersTracked_def)
  have nopend: "\<forall>k e. pendingTimers ?s k \<noteq> Some (fst c, e)"
    using tr none by (fastforce simp: timersTracked_def)
  show ?thesis using len ids none nopend by (simp add: calls)
qed

text \<open>
  C6. The claim: for every notification with a positive duration, \<^verbatim>\<open>pause\<close>
  cancels its pending removal timer and a following \<^verbatim>\<open>resume\<close> reschedules the
  removal after half the duration. \<^verbatim>\<open>scheduleRemoval\<close> stores the new handle in the
  timeout map without cancelling the timer whose handle it overwrites. So when
  \<^verbatim>\<open>resume\<close> is called on the notification that \<^verbatim>\<open>show\<close> has just scheduled,
  the first timer is pending but no longer recorded: \<^verbatim>\<open>pause\<close> cancels the second
  timer only, the first one, with the full duration, is still pending at the host
  while the notification is paused, and after the next \<^verbatim>\<open>resume\<close> the notification
  has two pending timers.
\<close>

theorem resume_unpaused_leaks_timer:
  "find (\<lambda>n. notif_id n = ''toast_1'') (notifications (resume oneToast ''toast_1''))
     = Some \<lparr>notif_id = ''toast_1'', notif_type = TypeInfo, notif_title = None,
             notif_message = ''saved'', duration = 5000, dismissible = True, timestamp = 0,
             action = None\<rparr>
   \<and> pendingTimers (resume oneToast ''toast_1'') 1 = Some (''toast_1'', 5000)
   \<and> timeoutMap (resume oneToast ''toast_1'') ''toast_1'' = Some 2
   \<and> timeoutMap (pause (resume oneToast ''toast_1'') ''toast_1'') ''toast_1'' = None
   \<and> pendingTimers (pause (resume oneToast ''toast_1'') ''toast_1'') 1
       = Some (''toast_1'', 5000)
   \<and> pendingTimers (resume (pause (resume oneToast ''toast_1'') ''toast_1'') ''toast_1'') 1
       = Some (''toast_1'', 5000)
   \<and> pendingTimers (resume (pause (resume oneToast ''toast_1'') ''toast_1'') ''toast_1'') 3
       = Some (''toast_1'', 2500)"
  by (simp add: resume_def pause_def clearTimeout_def hostClearTimeout_def scheduleRemoval_def
      hostSetTimeout_def oneToast_eval Let_def)

text \<open>
  When every pending timer of a notification is the one recorded for it in the timeout
  map, as it is after \<^verbatim>\<open>show\<close> and as long as each \<^verbatim>\<open>resume\<close> follows a
  \<^verbatim>\<open>pause\<close>, the two methods do what they are written for. Take such a
  notification with a positive duration: after \<^verbatim>\<open>pause\<close> the host has no pending
  timer for it; after a following \<^verbatim>\<open>resume\<close> the timeout map records a timer for
  it, and that timer is its only pending one, with a delay of half the notification's
  duration.
\<close>

lemma pause_resume_half_duration:
  assumes "find (\<lambda>n. notif_id n = i) (notifications s) = Some n"
    and "duration n > 0"
    and "\<forall>k e. pendingTimers s k = Some (i, e) \<longrightarrow> timeoutMap s i = Some k \<and> k \<noteq> 0"
  shows "(\<forall>k e. pendingTimers (pause s i) k \<noteq> Some (i, e))
         \<and> (\<exists>h. timeoutMap (resume (pause s i) i) i = Some h
                \<and> (\<forall>k e. pendingTimers (resume (pause s i) i) k = Some (i, e)
                       \<longleftrightarrow> k = h \<and> e = duration n / 2))"
proof -
  have notifs: "notifications (pause s i) = notifications s"
    by (simp add: pause_def clearTimeout_def hostClearTimeout_def Let_def split: option.splits)
  have cancelled: "pendingTimers (pause s i) k \<noteq> Some (i, e)" for k e
  proof
    assume p: "pendingTimers (pause s i) k = Some (i, e)"
    show False
    proof (cases "timeoutMap s i")
      case None
      with p have "pendingTimers s k = Some (i, e)"
        by (simp add: pause_def clearTimeout_def)
      with assms(3) None show False by fastforce
    next
      case (Some h)
      show False
      proof (cases "h = 0")
        case True
        with p Some have "pendingTimers s k = Some (i, e)"
          by (simp add: pause_def clearTimeout_def)
        with assms(3) Some True show False by fastforce
      next
        case False
        with p Some have "k \<noteq> h" and "pendingTimers s k = Some (i, e)"
          by (auto simp: pause_def clearTimeout_def hostClearTimeout_def Let_def
              split: if_splits)
        with assms(3) Some show False by fastforce
      qed
    qed
  qed
  have res: "resume (pause s i) i = scheduleRemoval (pause s i) i (duration n / 2)"
    using assms(1,2) by (simp add: resume_def notifs)
  let ?h = "Suc (timerCounter (pause s i))"
  have "timeoutMap (resume (pause s i) i) i = Some ?h"
    by (simp add: res scheduleRemoval_def hostSetTimeout_def Let_def)
  moreover have "pendingTimers (resume (pause s i) i) k = Some (i, e)
                   \<longleftrightarrow> k = ?h \<and> e = duration n / 2" for k e
    using cancelled [of k e]
    by (auto simp: res scheduleRemoval_def hostSetTimeout_def Let_def)
  ultimately show ?thesis using cancelled by blast
qed

lemma pause_resume_half_duration_oneToast:
  "pendingTimers oneToast 1 = Some (''toast_1'', 5000)
   \<and> pendingTimers (pause oneToast ''toast_1'') 1 = None
   \<and> (\<exists>h. timeoutMap (resume (pause oneToast ''toast_1'') ''toast_1'') ''toast_1'' = Some h
          \<and> pendingTimers (resume (pause oneToast ''toast_1'') ''toast_1'') h
              = Some (''toast_1'', 2500))"
proof -
  let ?n = "\<lparr>notif_id = ''toast_1'', notif_type = TypeInfo, notif_title = None,
             notif_message = ''saved'', duration = 5000, dismissible = True, timestamp = 0,
             action = None\<rparr>"
  have h1: "find (\<lambda>n. notif_id n = ''toast_1'') (notifications oneToast) = Some ?n"
    by (simp add: oneToast_eval)
  have h2: "duration ?n > 0" by simp
  have h3: "\<forall>k e. pendingTimers oneToast k = Some (''toast_1'', e)
              \<longrightarrow> timeoutMap oneToast ''toast_1'' = Some k \<and> k \<noteq> 0"
    by (simp add: oneToast_eval)
  have pending: "pendingTimers oneToast 1 = Some (''toast_1'', 5000)"
    by (simp add: oneToast_eval)
  have paused: "pendingTimers (pause oneToast ''toast_1'') 1 = None"
    by (simp add: pause_def clearTimeout_def hostClearTimeout_def oneToast_eval Let_def)
  from pause_resume_half_duration [OF h1 h2 h3]
  obtain h where "timeoutMap (resume (pause oneToast ''toast_1'') ''toast_1'') ''toast_1'' = Some h"
    and "pendingTimers (resume (pause oneToast ''toast_1'') ''toast_1'') h
           = Some (''toast_1'', 2500)"
    by auto
  with pending paused show ?thesis by blast
qed

text \<open>
  That condition follows from the invariant of tracked timers, which \<^verbatim>\<open>pause\<close>
  keeps, and which \<^verbatim>\<open>resume\<close> keeps on a notification that is paused.
\<close>

lemma timersTracked_pause: "timersTracked s \<Longrightarrow> timersTracked (pause s i)"
  unfolding timersTracked_def pause_def
  by (auto simp: clearTimeout_def hostClearTimeout_def Let_def split: option.splits if_splits)
     (metis option.inject)+

lemma timersTracked_resume:
  assumes "timersTracked s" and "timeoutMap s i = None"
  shows "timersTracked (resume s i)"
proof (cases "find (\<lambda>n. notif_id n = i) (notifications s)")
  case None
  then show ?thesis using assms(1) by (simp add: resume_def)
next
  case (Some n)
  then have "i \<in> notif_id ` set (notifications s)"
    by (auto simp: find_Some_iff)
  then show ?thesis
    using Some assms by (simp add: resume_def scheduleRemoval_tracked)
qed

lemma timersTracked_pending:
  assumes "timersTracked s"
  shows "\<forall>k e. pendingTimers s k = Some (i, e) \<longrightarrow> timeoutMap s i = Some k \<and> k \<noteq> 0"
  using assms unfolding timersTracked_def by blast


text \<open>
  C9. \<^verbatim>\<open>dismiss\<close> is idempotent: a second call with the same id leaves the whole
  state of the service and of the host's timers as the first call left it, the list of
  handles passed to the host's \<^verbatim>\<open>clearTimeout\<close> included. The model of
  \<^verbatim>\<open>dismiss\<close> has no error result, as the source has no statement that throws.
\<close>

theorem dismiss_idempotent: "dismiss (dismiss s i) i = dismiss s i"
  by (cases "timeoutMap s i")
     (auto simp: dismiss_def clearTimeout_def hostClearTimeout_def Let_def)

section \<open>Properties of the error logging service\<close>

lemma errorBuffer_runHooks: "errorBuffer (runHooks hs err entry s) = errorBuffer s"
  by (induction hs arbitrary: s) auto

lemma errorBuffer_log_error:
  "errorBuffer (log_error s ua err md) =
     (if length (errorBuffer s) \<ge> maxBufferSize
      then tl (errorBuffer s @ [createLogEntry ua err md])
      else errorBuffer s @ [createLogEntry ua err md])"
  by (auto simp: log_error_def addToBuffer_def errorBuffer_runHooks Let_def)

lemma length_errorBuffer_log_error:
  "length (errorBuffer s) \<le> maxBufferSize \<Longrightarrow>
   length (errorBuffer (log_error s ua err md)) \<le> maxBufferSize"
  by (auto simp: errorBuffer_log_error maxBufferSize_def)

lemma length_errorBuffer_log_all:
  "length (errorBuffer s) \<le> maxBufferSize \<Longrightarrow>
   length (errorBuffer (log_all s calls)) \<le> maxBufferSize"
  by (induction s calls rule: log_all.induct) (auto simp: length_errorBuffer_log_error)

lemma errorBuffer_log_all:
  "length (errorBuffer s) \<le> maxBufferSize \<Longrightarrow>
   errorBuffer (log_all s calls) =
     (let all = errorBuffer s @ map (\<lambda>(ua, err, md). createLogEntry ua err md) calls
      in drop (length all - maxBufferSize) all)"
proof (induction s calls rule: log_all.induct)
  case (1 s)
  then show ?case by simp
next
  case (2 s ua err md calls)
  have len: "length (errorBuffer (log_error s ua err md)) \<le> maxBufferSize"
    using "2.prems" by (rule length_errorBuffer_log_error)
  show ?case
  proof (cases "length (errorBuffer s) \<ge> maxBufferSize")
    case True
    with "2.prems" have full: "length (errorBuffer s) = maxBufferSize" by simp
    then obtain x xs where xs: "errorBuffer s = x # xs"
      by (cases "errorBuffer s") (auto simp: maxBufferSize_def)
    have "length xs + 1 = maxBufferSize" using full xs by simp
    then show ?thesis
      using "2.IH" [OF len] True xs
      by (simp add: errorBuffer_log_error Let_def Suc_diff_le)
  next
    case False
    then show ?thesis
      using "2.IH" [OF len] by (simp add: errorBuffer_log_error Let_def)
  qed
qed

text \<open>
  C8. Starting from the empty buffer, after any sequence of \<^verbatim>\<open>log\<close> calls the
  buffer holds at most 100 entries: the entries of the last 100 calls, in the order of
  the calls. A \<^verbatim>\<open>log\<close> call on a buffer of fewer than 100 entries appends its entry;
  on a buffer of 100 entries it appends its entry and drops the first, which is the
  oldest, and no other.
\<close>

theorem errorBuffer_bounded_fifo:
  "length (errorBuffer (log_all (newErrorLoggingService hs) calls)) \<le> 100
   \<and> errorBuffer (log_all (newErrorLoggingService hs) calls) =
       drop (length calls - 100) (map (\<lambda>(ua, err, md). createLogEntry ua err md) calls)
   \<and> (length (errorBuffer s) < 100 \<longrightarrow>
        errorBuffer (log_error s ua err md) = errorBuffer s @ [createLogEntry ua err md])
   \<and> (length (errorBuffer s) = 100 \<longrightarrow>
        errorBuffer (log_error s ua err md) = tl (errorBuffer s) @ [createLogEntry ua err md])"
proof -
  have init: "length (errorBuffer (newErrorLoggingService hs)) \<le> maxBufferSize"
    by (simp add: newErrorLoggingService_def)
  have a: "length (errorBuffer (log_all (newErrorLoggingService hs) calls)) \<le> 100"
    using length_errorBuffer_log_all [OF init, of calls] by (simp add: maxBufferSize_def)
  have b: "errorBuffer (log_all (newErrorLoggingService hs) calls) =
       drop (length calls - 100) (map (\<lambda>(ua, err, md). createLogEntry ua err md) calls)"
    using errorBuffer_log_all [OF init, of calls]
    by (simp add: maxBufferSize_def newErrorLoggingService_def Let_def)
  have c: "length (errorBuffer s) < 100 \<longrightarrow>
        errorBuffer (log_error s ua err md) = errorBuffer s @ [createLogEntry ua err md]"
    by (simp add: errorBuffer_log_error maxBufferSize_def)
  have d: "length (errorBuffer s) = 100 \<longrightarrow>
        errorBuffer (log_error s ua err md) = tl (errorBuffer s) @ [createLogEntry ua err md]"
    by (cases "errorBuffer s") (auto simp: errorBuffer_log_error maxBufferSize_def)
  from a b c d show ?thesis by blast
qed

theorem errorBuffer_bounded_fifo_witness:
  "length (errorBuffer (fullBuffer)) = 100
   \<and> errorBuffer (log_error fullBuffer None (sampleError ''new'') None)
       = replicate 99 (createLogEntry None (sampleError ''old'') None)
         @ [createLogEntry None (sampleError ''new'') None]
   \<and> length (errorBuffer (newErrorLoggingService [])) < 100
   \<and> errorBuffer (log_error (newErrorLoggingService []) None (sampleError ''new'') None)
       = [createLogEntry None (sampleError ''new'') None]"
proof -
  have full: "errorBuffer fullBuffer = replicate 100 (createLogEntry None (sampleError ''old'') None)"
    by (simp add: fullBuffer_def)
  have tl_full: "tl (errorBuffer fullBuffer)
                   = replicate 99 (createLogEntry None (sampleError ''old'') None)"
    by (simp add: full tl_replicate)
  show ?thesis
    using errorBuffer_bounded_fifo [where s = fullBuffer and hs = "[]" and calls = "[]"
            and ua = None and err = "sampleError ''new''" and md = None]
          errorBuffer_bounded_fifo [where s = "newErrorLoggingService []" and hs = "[]"
            and calls = "[]" and ua = None and err = "sampleError ''new''" and md = None]
    by (simp add: tl_full) (simp add: full newErrorLoggingService_def)
qed

end
